theory Spec2Isabelle
  imports Main "HOL-Library.AList" "HOL-Library.Sublist"
begin

section \<open>The Mergington High School activities API (src/app.py)\<close>

text \<open>
  The program keeps one JSON file, \<^verbatim>\<open>data/activities.json\<close>: an object that maps an
  activity name to the activity's document. \<^verbatim>\<open>FileStorage\<close> reads the whole file,
  changes the parsed value and writes it back; three handlers call it.

  The state of the model is the parsed content of that file. \<^verbatim>\<open>_read\<close> followed by
  \<^verbatim>\<open>_write\<close> is the identity on it, so a storage operation takes the content and
  returns the content it leaves behind. An operation that raises before it reaches
  \<^verbatim>\<open>_write\<close> returns the content it was given.
\<close>

subsection \<open>JSON values and Python dictionaries\<close>

text \<open>
  What \<^verbatim>\<open>json.loads\<close> produces. A number is an integer here: no operation of the
  program computes with a number, and numbers with a fraction are left out of the model.
  A Python string is a \<open>string\<close>, a list of characters. A dictionary is an
  association list in insertion order, every key once: \<open>map_of\<close> looks a key up,
  \<open>AList.update\<close> assigns to a key (a present key keeps its place, a new one goes
  to the end) and \<open>AList.delete\<close> removes a key.
\<close>

datatype json =
    JNull
  | JBool bool
  | JInt int
  | JStr string
  | JList "json list"
  | JObj "(string \<times> json) list"

type_synonym doc = "(string \<times> json) list"

type_synonym store = "(string \<times> doc) list"

text \<open>The exceptions the code can raise, as values.\<close>

datatype error =
    KeyError
  | TypeError
  | AttributeError
  | ValueError
  | HTTPException (status_code: nat) (detail: string)

text \<open>
  \<^verbatim>\<open>{**a, **b}\<close>: start from \<open>a\<close> and assign every item of \<open>b\<close> in order. A key
  that \<open>a\<close> already has keeps its place and takes the value of \<open>b\<close>.
\<close>

definition py_merge :: "('k \<times> 'v) list \<Rightarrow> ('k \<times> 'v) list \<Rightarrow> ('k \<times> 'v) list" where
  "py_merge a b = fold (\<lambda>(k, v). AList.update k v) b a"

text \<open>
  \<^verbatim>\<open>e in x\<close> for a string \<open>e\<close>: membership in a list, substring of a string, key of
  a dictionary; \<^verbatim>\<open>None\<close>, booleans and numbers are not iterable. A string equals no
  JSON value but the same string, so membership in a list is membership of \<open>JStr e\<close>.
\<close>

fun py_in :: "string \<Rightarrow> json \<Rightarrow> error + bool" where
  "py_in e (JList xs) = Inr (JStr e \<in> set xs)"
| "py_in e (JStr t) = Inr (sublist e t)"
| "py_in e (JObj kvs) = Inr (e \<in> fst ` set kvs)"
| "py_in e JNull = Inl TypeError"
| "py_in e (JBool b) = Inl TypeError"
| "py_in e (JInt i) = Inl TypeError"

text \<open>\<^verbatim>\<open>x.append(e)\<close> and \<^verbatim>\<open>x.remove(e)\<close>: only a list has these methods.\<close>

fun py_append :: "json \<Rightarrow> string \<Rightarrow> error + json" where
  "py_append (JList xs) e = Inr (JList (xs @ [JStr e]))"
| "py_append _ e = Inl AttributeError"

fun py_remove :: "json \<Rightarrow> string \<Rightarrow> error + json" where
  "py_remove (JList xs) e =
     (if JStr e \<in> set xs then Inr (JList (remove1 (JStr e) xs)) else Inl ValueError)"
| "py_remove _ e = Inl AttributeError"

text \<open>A loop whose body may raise: the first exception ends it.\<close>

fun for_each :: "('s \<Rightarrow> 'a \<Rightarrow> error + 's) \<Rightarrow> 'a list \<Rightarrow> 's \<Rightarrow> error + 's" where
  "for_each f [] s = Inr s"
| "for_each f (x # xs) s = (case f s x of Inl e \<Rightarrow> Inl e | Inr s' \<Rightarrow> for_each f xs s')"

subsection \<open>FileStorage\<close>

text \<open>
  The callers pass \<^verbatim>\<open>{"_id": activity_name}\<close> as the query and
  \<^verbatim>\<open>{"$push": {"participants": email}}\<close> or \<^verbatim>\<open>{"$pull": ...}\<close> as the update,
  with \<^verbatim>\<open>activity_name: str\<close> and \<^verbatim>\<open>email: str\<close>: a query is a dictionary of
  strings, an update a dictionary of dictionaries of strings.
\<close>

type_synonym query = "(string \<times> string) list"

type_synonym update = "(string \<times> (string \<times> string) list) list"

record update_result =
  modified_count :: nat

record insert_result =
  inserted_id :: json

text \<open>
  \<^verbatim>\<open>find\<close> is \<open>find_all\<close> here, since \<open>find\<close> is a function on lists in HOL.
  \<^verbatim>\<open>{"_id": k, **v}\<close> puts the name first and then assigns the fields of the stored
  document, one of which may itself be called \<^verbatim>\<open>_id\<close>.
\<close>

definition find_all :: "store \<Rightarrow> doc list" where
  "find_all data = map (\<lambda>(k, v). py_merge [(''_id'', JStr k)] v) data"

definition find_one :: "store \<Rightarrow> query \<Rightarrow> doc option" where
  "find_one data query =
     (case map_of query ''_id'' of
        None \<Rightarrow> None
      | Some i \<Rightarrow>
          (case map_of data i of
             None \<Rightarrow> None
           | Some v \<Rightarrow> Some (py_merge [(''_id'', JStr i)] v)))"

text \<open>The body of the \<^verbatim>\<open>$push\<close> loop and of the \<^verbatim>\<open>$pull\<close> loop, on the document.\<close>

definition push_field :: "doc \<Rightarrow> string \<times> string \<Rightarrow> error + doc" where
  "push_field d fv =
     (case fv of (field, value) \<Rightarrow>
        let d1 = (if field \<notin> fst ` set d then AList.update field (JList []) d else d)
        in (case map_of d1 field of
              None \<Rightarrow> Inl KeyError
            | Some x \<Rightarrow>
                (case py_append x value of
                   Inl e \<Rightarrow> Inl e
                 | Inr x' \<Rightarrow> Inr (AList.update field x' d1))))"

definition pull_field :: "doc \<Rightarrow> string \<times> string \<Rightarrow> error + doc" where
  "pull_field d fv =
     (case fv of (field, value) \<Rightarrow>
        if field \<in> fst ` set d then
          (case map_of d field of
             None \<Rightarrow> Inl KeyError
           | Some x \<Rightarrow>
               (case py_remove x value of
                  Inl e \<Rightarrow> Inl e
                | Inr x' \<Rightarrow> Inr (AList.update field x' d)))
        else Inr d)"

definition update_one :: "store \<Rightarrow> query \<Rightarrow> update \<Rightarrow> (error + update_result) \<times> store" where
  "update_one data query update =
     (case map_of query ''_id'' of
        None \<Rightarrow> (Inr \<lparr>modified_count = 0\<rparr>, data)
      | Some i \<Rightarrow>
          (case map_of data i of
             None \<Rightarrow> (Inr \<lparr>modified_count = 0\<rparr>, data)
           | Some d \<Rightarrow>
               (case (case map_of update ''$push'' of
                        Some items \<Rightarrow> for_each push_field items d
                      | None \<Rightarrow>
                          (case map_of update ''$pull'' of
                             Some items \<Rightarrow> for_each pull_field items d
                           | None \<Rightarrow> Inr d)) of
                  Inl e \<Rightarrow> (Inl e, data)
                | Inr d' \<Rightarrow> (Inr \<lparr>modified_count = 1\<rparr>, AList.update i d' data))))"

definition count_documents :: "store \<Rightarrow> 'q \<Rightarrow> nat" where
  "count_documents data query = length data"

text \<open>
  \<^verbatim>\<open>insert_one\<close> stores the document under the popped \<^verbatim>\<open>_id\<close>. A list or a
  dictionary cannot be a key (\<^verbatim>\<open>TypeError\<close> at the assignment). Any other key that is
  not a string is written by \<^verbatim>\<open>json.dumps\<close> as its JSON text, so that the file holds
  the document under that text, in the place of an entry with the same text if there is
  one.
\<close>

function dec :: "nat \<Rightarrow> string" where
  "dec n =
     (if n < 10 then [''0123456789'' ! n]
      else dec (n div 10) @ [''0123456789'' ! (n mod 10)])"
  by pat_completeness auto
termination
  by (relation "measure (\<lambda>n. n)") auto

definition str_int :: "int \<Rightarrow> string" where
  "str_int i = (if i < 0 then ''-'' @ dec (nat (- i)) else dec (nat i))"

fun dumps_key :: "json \<Rightarrow> error + string" where
  "dumps_key (JStr s) = Inr s"
| "dumps_key (JInt i) = Inr (str_int i)"
| "dumps_key (JBool b) = Inr (if b then ''true'' else ''false'')"
| "dumps_key JNull = Inr ''null''"
| "dumps_key (JList xs) = Inl TypeError"
| "dumps_key (JObj kvs) = Inl TypeError"

definition insert_one :: "store \<Rightarrow> doc \<Rightarrow> (error + insert_result) \<times> store" where
  "insert_one data doc =
     (case map_of doc ''_id'' of
        None \<Rightarrow> (Inl KeyError, data)
      | Some i \<Rightarrow>
          (case dumps_key i of
             Inl e \<Rightarrow> (Inl e, data)
           | Inr k \<Rightarrow>
               (Inr \<lparr>inserted_id = i\<rparr>, AList.update k (AList.delete ''_id'' doc) data)))"

subsection \<open>Seed data and start-up\<close>

definition activity :: "string \<Rightarrow> string \<Rightarrow> int \<Rightarrow> string list \<Rightarrow> doc" where
  "activity description schedule max_participants participants =
     [(''description'', JStr description),
      (''schedule'', JStr schedule),
      (''max_participants'', JInt max_participants),
      (''participants'', JList (map JStr participants))]"

definition initial_activities :: "(string \<times> doc) list" where
  "initial_activities =
     [(''Chess Club'',
       activity ''Learn strategies and compete in chess tournaments''
         ''Fridays, 3:30 PM - 5:00 PM'' 12
         [''michael@mergington.edu'', ''daniel@mergington.edu'']),
      (''Programming Class'',
       activity ''Learn programming fundamentals and build software projects''
         ''Tuesdays and Thursdays, 3:30 PM - 4:30 PM'' 20
         [''emma@mergington.edu'', ''sophia@mergington.edu'']),
      (''Gym Class'',
       activity ''Physical education and sports activities''
         ''Mondays, Wednesdays, Fridays, 2:00 PM - 3:00 PM'' 30
         [''john@mergington.edu'', ''olivia@mergington.edu'']),
      (''Soccer Team'',
       activity ''Join the school soccer team and compete in matches''
         ''Tuesdays and Thursdays, 4:00 PM - 5:30 PM'' 22
         [''liam@mergington.edu'', ''noah@mergington.edu'']),
      (''Basketball Team'',
       activity ''Practice basketball skills and participate in tournaments''
         ''Wednesdays and Fridays, 3:30 PM - 5:00 PM'' 15
         [''ava@mergington.edu'', ''mia@mergington.edu'']),
      (''Art Club'',
       activity ''Explore various art techniques and create your own masterpieces''
         ''Mondays, 3:30 PM - 5:00 PM'' 15
         [''amelia@mergington.edu'', ''isabella@mergington.edu'']),
      (''Drama Club'',
       activity ''Learn acting skills and participate in school plays''
         ''Thursdays, 4:00 PM - 5:30 PM'' 20
         [''lucas@mergington.edu'', ''elijah@mergington.edu'']),
      (''Math Club'',
       activity ''Solve challenging math problems and prepare for competitions''
         ''Wednesdays, 3:30 PM - 4:30 PM'' 10
         [''charlotte@mergington.edu'', ''harper@mergington.edu'']),
      (''Science Club'',
       activity ''Conduct experiments and explore scientific concepts''
         ''Fridays, 4:00 PM - 5:30 PM'' 12
         [''evelyn@mergington.edu'', ''abigail@mergington.edu''])]"

text \<open>The loop of \<^verbatim>\<open>init_db\<close>: every \<^verbatim>\<open>insert_one\<close> writes the file on its own.\<close>

fun insert_each :: "(string \<times> doc) list \<Rightarrow> store \<Rightarrow> (error + unit) \<times> store" where
  "insert_each [] data = (Inr (), data)"
| "insert_each ((name, details) # rest) data =
     (case insert_one data (py_merge [(''_id'', JStr name)] details) of
        (Inl e, data') \<Rightarrow> (Inl e, data')
      | (Inr r, data') \<Rightarrow> insert_each rest data')"

definition init_db :: "store \<Rightarrow> (error + unit) \<times> store" where
  "init_db data =
     (if count_documents data ([] :: query) = 0 then insert_each initial_activities data
      else (Inr (), data))"

subsection \<open>The handlers\<close>

text \<open>
  \<^verbatim>\<open>activities[activity_name] = doc\<close> on the dictionary a handler builds. The key is
  whatever \<^verbatim>\<open>doc.pop("_id")\<close> gave: a list or a dictionary is unhashable, and
  \<^verbatim>\<open>True\<close>, \<^verbatim>\<open>False\<close> are the same key as \<^verbatim>\<open>1\<close>, \<^verbatim>\<open>0\<close>. An assignment to a
  key that is present keeps the key and its place.
\<close>

fun hashable :: "json \<Rightarrow> bool" where
  "hashable (JList xs) = False"
| "hashable (JObj kvs) = False"
| "hashable _ = True"

fun py_key :: "json \<Rightarrow> json" where
  "py_key (JBool b) = JInt (if b then 1 else 0)"
| "py_key k = k"

fun py_setitem :: "(json \<times> 'v) list \<Rightarrow> json \<Rightarrow> 'v \<Rightarrow> (json \<times> 'v) list" where
  "py_setitem [] k v = [(k, v)]"
| "py_setitem ((k', v') # r) k v =
     (if py_key k' = py_key k then (k', v) # r else (k', v') # py_setitem r k v)"

definition collect :: "(json \<times> doc) list \<Rightarrow> doc \<Rightarrow> error + (json \<times> doc) list" where
  "collect activities doc =
     (case map_of doc ''_id'' of
        None \<Rightarrow> Inl KeyError
      | Some activity_name \<Rightarrow>
          if hashable activity_name
          then Inr (py_setitem activities activity_name (AList.delete ''_id'' doc))
          else Inl TypeError)"

definition get_activities :: "store \<Rightarrow> error + (json \<times> doc) list" where
  "get_activities data = for_each collect (find_all data) []"

text \<open>
  The two POST handlers return \<^verbatim>\<open>{"message": ...}\<close> or raise; the second component
  is the file they leave. \<^verbatim>\<open>not activity\<close> holds for \<^verbatim>\<open>None\<close> and for an empty
  dictionary. An exception of \<^verbatim>\<open>update_one\<close> passes through the handler.
\<close>

type_synonym response = "(string \<times> string) list"

definition signup_for_activity :: "store \<Rightarrow> string \<Rightarrow> string \<Rightarrow> (error + response) \<times> store" where
  "signup_for_activity data activity_name email =
     (case find_one data [(''_id'', activity_name)] of
        None \<Rightarrow> (Inl (HTTPException 404 ''Activity not found''), data)
      | Some a \<Rightarrow>
          if a = [] then (Inl (HTTPException 404 ''Activity not found''), data)
          else
            (case map_of a ''participants'' of
               None \<Rightarrow> (Inl KeyError, data)
             | Some p \<Rightarrow>
                 (case py_in email p of
                    Inl e \<Rightarrow> (Inl e, data)
                  | Inr True \<Rightarrow> (Inl (HTTPException 400 ''Student is already signed up''), data)
                  | Inr False \<Rightarrow>
                      (case update_one data [(''_id'', activity_name)]
                              [(''$push'', [(''participants'', email)])] of
                         (Inl e, data') \<Rightarrow> (Inl e, data')
                       | (Inr result, data') \<Rightarrow>
                           if modified_count result = 0
                           then (Inl (HTTPException 500 ''Failed to sign up student''), data')
                           else (Inr [(''message'',
                                       ''Signed up '' @ email @ '' for '' @ activity_name)],
                                 data')))))"

definition unregister_from_activity ::
    "store \<Rightarrow> string \<Rightarrow> string \<Rightarrow> (error + response) \<times> store" where
  "unregister_from_activity data activity_name email =
     (case find_one data [(''_id'', activity_name)] of
        None \<Rightarrow> (Inl (HTTPException 404 ''Activity not found''), data)
      | Some a \<Rightarrow>
          if a = [] then (Inl (HTTPException 404 ''Activity not found''), data)
          else
            (case map_of a ''participants'' of
               None \<Rightarrow> (Inl KeyError, data)
             | Some p \<Rightarrow>
                 (case py_in email p of
                    Inl e \<Rightarrow> (Inl e, data)
                  | Inr False \<Rightarrow>
                      (Inl (HTTPException 400 ''Student is not signed up for this activity''),
                       data)
                  | Inr True \<Rightarrow>
                      (case update_one data [(''_id'', activity_name)]
                              [(''$pull'', [(''participants'', email)])] of
                         (Inl e, data') \<Rightarrow> (Inl e, data')
                       | (Inr result, data') \<Rightarrow>
                           if modified_count result = 0
                           then (Inl (HTTPException 500 ''Failed to unregister student''), data')
                           else (Inr [(''message'',
                                       ''Unregistered '' @ email @ '' from '' @ activity_name)],
                                 data')))))"

subsection \<open>Reading the state\<close>

text \<open>\<^verbatim>\<open>data[name]["participants"]\<close>, where both keys are present.\<close>

definition participants_of :: "store \<Rightarrow> string \<Rightarrow> json option" where
  "participants_of data name =
     (case map_of data name of None \<Rightarrow> None | Some d \<Rightarrow> map_of d ''participants'')"

text \<open>
  A run of the service after start-up: a sequence of requests to the two POST routes,
  each on the file the previous one left.
\<close>

datatype call = Signup string string | Unregister string string

fun api_call :: "store \<Rightarrow> call \<Rightarrow> store" where
  "api_call data (Signup activity_name email) =
     snd (signup_for_activity data activity_name email)"
| "api_call data (Unregister activity_name email) =
     snd (unregister_from_activity data activity_name email)"

definition api_calls :: "store \<Rightarrow> call list \<Rightarrow> store" where
  "api_calls data calls = foldl api_call data calls"

text \<open>
  A document as the program itself writes it: a dictionary without an \<^verbatim>\<open>_id\<close> field
  of its own, whose \<^verbatim>\<open>participants\<close> is a list in which no value occurs twice. A
  store of such documents, every name once, is what start-up produces and what the two
  POST handlers keep up.
\<close>

definition activity_ok :: "doc \<Rightarrow> bool" where
  "activity_ok d =
     (distinct (map fst d) \<and> ''_id'' \<notin> fst ` set d \<and>
      (case map_of d ''participants'' of
         Some (JList ps) \<Rightarrow> distinct ps
       | _ \<Rightarrow> False))"

definition store_ok :: "store \<Rightarrow> bool" where
  "store_ok data = (distinct (map fst data) \<and> (\<forall>(n, d) \<in> set data. activity_ok d))"

section \<open>Properties\<close>

subsection \<open>Dictionaries\<close>

lemma update_fresh: "k \<notin> fst ` set al \<Longrightarrow> AList.update k v al = al @ [(k, v)]"
  by (induction al) auto

lemma set_update_cases:
  "p \<in> set (AList.update k v al) \<Longrightarrow> p = (k, v) \<or> p \<in> set al"
  by (induction al) (auto split: if_splits)

lemma py_merge_nonempty: "a \<noteq> [] \<Longrightarrow> py_merge a b \<noteq> []"
proof (induction b arbitrary: a)
  case Nil
  then show ?case by (simp add: py_merge_def)
next
  case (Cons x b)
  obtain k v where x: "x = (k, v)" by (cases x)
  have "py_merge a (x # b) = py_merge (AList.update k v a) b"
    by (simp add: py_merge_def x)
  then show ?case
    using Cons.IH [of "AList.update k v a"] by simp
qed

lemma map_of_py_merge:
  "distinct (map fst b) \<Longrightarrow> map_of (py_merge a b) = map_of a ++ map_of b"
  unfolding py_merge_def
proof (induction b arbitrary: a)
  case Nil
  then show ?case by simp
next
  case (Cons x b)
  obtain k v where x: "x = (k, v)" by (cases x)
  from Cons.prems x have fresh: "map_of b k = None" and d: "distinct (map fst b)"
    by (auto simp: map_of_eq_None_iff)
  have "map_of (fold (\<lambda>(k, v). AList.update k v) (x # b) a)
        = map_of (AList.update k v a) ++ map_of b"
    using Cons.IH [OF d] x by simp
  also have "\<dots> = map_of a ++ map_of (x # b)"
    using fresh x by (auto simp: AList.update_conv' map_add_def fun_eq_iff split: option.splits)
  finally show ?case .
qed

lemma py_merge_disjoint:
  "distinct (map fst b) \<Longrightarrow> fst ` set a \<inter> fst ` set b = {} \<Longrightarrow> py_merge a b = a @ b"
  unfolding py_merge_def
proof (induction b arbitrary: a)
  case Nil
  then show ?case by simp
next
  case (Cons x b)
  obtain k v where x: "x = (k, v)" by (cases x)
  from Cons.prems x have ka: "k \<notin> fst ` set a" and kb: "k \<notin> fst ` set b"
    and d: "distinct (map fst b)" by auto
  have disj: "fst ` set (a @ [(k, v)]) \<inter> fst ` set b = {}"
    using Cons.prems(2) kb x by auto
  show ?case
    using Cons.IH [OF d disj] x by (simp add: update_fresh [OF ka])
qed

lemma participants_of_update:
  "participants_of (AList.update name (AList.update ''participants'' p d) data) name = Some p"
  by (simp add: participants_of_def AList.update_conv')

lemma count_list_remove1:
  "count_list (remove1 x xs) y =
     (if x = y \<and> x \<in> set xs then count_list xs y - 1 else count_list xs y)"
  by (induction xs) auto

lemma count_list_present: "x \<in> set xs \<Longrightarrow> 0 < count_list xs x"
  by (induction xs) auto

subsection \<open>Storage operations and handlers on a known and on an unknown name\<close>

lemma find_one_known:
  "map_of data name = Some d \<Longrightarrow>
   find_one data [(''_id'', name)] = Some (py_merge [(''_id'', JStr name)] d)"
  by (simp add: find_one_def)

lemma find_one_unknown:
  "map_of data name = None \<Longrightarrow> find_one data [(''_id'', name)] = None"
  by (simp add: find_one_def)

lemma participants_of_found:
  "distinct (map fst d) \<Longrightarrow>
   map_of (py_merge [(''_id'', JStr name)] d) ''participants'' = map_of d ''participants''"
  by (simp add: map_of_py_merge map_add_def split: option.splits)

lemma update_one_push:
  "map_of data name = Some d \<Longrightarrow> map_of d field = Some (JList xs) \<Longrightarrow>
   update_one data [(''_id'', name)] [(''$push'', [(field, value)])]
   = (Inr \<lparr>modified_count = 1\<rparr>,
      AList.update name (AList.update field (JList (xs @ [JStr value])) d) data)"
  by (auto simp: update_one_def push_field_def map_of_eq_None_iff [symmetric])

lemma update_one_push_new:
  "map_of data name = Some d \<Longrightarrow> map_of d field = None \<Longrightarrow>
   update_one data [(''_id'', name)] [(''$push'', [(field, value)])]
   = (Inr \<lparr>modified_count = 1\<rparr>,
      AList.update name (AList.update field (JList [JStr value]) d) data)"
  by (auto simp: update_one_def push_field_def AList.update_conv' map_of_eq_None_iff [symmetric])

lemma update_one_pull:
  "map_of data name = Some d \<Longrightarrow> map_of d field = Some (JList xs) \<Longrightarrow>
   update_one data [(''_id'', name)] [(''$pull'', [(field, value)])]
   = (if JStr value \<in> set xs
      then (Inr \<lparr>modified_count = 1\<rparr>,
            AList.update name (AList.update field (JList (remove1 (JStr value) xs)) d) data)
      else (Inl ValueError, data))"
  by (auto simp: update_one_def pull_field_def map_of_eq_None_iff [symmetric])

lemma update_one_pull_absent:
  "map_of data name = Some d \<Longrightarrow> map_of d field = None \<Longrightarrow>
   update_one data [(''_id'', name)] [(''$pull'', [(field, value)])]
   = (Inr \<lparr>modified_count = 1\<rparr>, data)"
  by (auto simp: update_one_def pull_field_def AList.update_triv map_of_eq_None_iff [symmetric])

lemma update_one_unknown:
  "map_of data name = None \<Longrightarrow>
   update_one data [(''_id'', name)] upd = (Inr \<lparr>modified_count = 0\<rparr>, data)"
  by (simp add: update_one_def)

lemma signup_known:
  assumes "map_of data name = Some d" and "distinct (map fst d)"
    and "map_of d ''participants'' = Some (JList ps)"
  shows "signup_for_activity data name email =
     (if JStr email \<in> set ps
      then (Inl (HTTPException 400 ''Student is already signed up''), data)
      else (Inr [(''message'', ''Signed up '' @ email @ '' for '' @ name)],
            AList.update name
              (AList.update ''participants'' (JList (ps @ [JStr email])) d) data))"
  using assms
  by (simp add: signup_for_activity_def find_one_known py_merge_nonempty
      participants_of_found update_one_push)

lemma unregister_known:
  assumes "map_of data name = Some d" and "distinct (map fst d)"
    and "map_of d ''participants'' = Some (JList ps)"
  shows "unregister_from_activity data name email =
     (if JStr email \<in> set ps
      then (Inr [(''message'', ''Unregistered '' @ email @ '' from '' @ name)],
            AList.update name
              (AList.update ''participants'' (JList (remove1 (JStr email) ps)) d) data)
      else (Inl (HTTPException 400 ''Student is not signed up for this activity''), data))"
  using assms
  by (simp add: unregister_from_activity_def find_one_known py_merge_nonempty
      participants_of_found update_one_pull)

lemma signup_unknown:
  "map_of data name = None \<Longrightarrow>
   signup_for_activity data name email = (Inl (HTTPException 404 ''Activity not found''), data)"
  by (simp add: signup_for_activity_def find_one_unknown)

lemma unregister_unknown:
  "map_of data name = None \<Longrightarrow>
   unregister_from_activity data name email
   = (Inl (HTTPException 404 ''Activity not found''), data)"
  by (simp add: unregister_from_activity_def find_one_unknown)

section \<open>The claims\<close>

subsection \<open>Unknown activity names\<close>

text \<open>
  C4. For an activity name that is not a key of the store, and for any email,
  \<^verbatim>\<open>POST /activities/{name}/signup\<close> and \<^verbatim>\<open>POST /activities/{name}/unregister\<close>
  both raise \<^verbatim>\<open>HTTPException(404, "Activity not found")\<close>, and the store is what it
  was.
\<close>

theorem unknown_activity_not_found:
  assumes "name \<notin> fst ` set data"
  shows "signup_for_activity data name email
           = (Inl (HTTPException 404 ''Activity not found''), data)
       \<and> unregister_from_activity data name email
           = (Inl (HTTPException 404 ''Activity not found''), data)"
proof -
  from assms have "map_of data name = None"
    by (simp add: map_of_eq_None_iff)
  then show ?thesis
    by (simp add: signup_unknown unregister_unknown)
qed

theorem unknown_activity_not_found_witness:
  "signup_for_activity initial_activities ''Knitting Circle'' ''emma@mergington.edu''
     = (Inl (HTTPException 404 ''Activity not found''), initial_activities)
   \<and> unregister_from_activity initial_activities ''Knitting Circle'' ''emma@mergington.edu''
     = (Inl (HTTPException 404 ''Activity not found''), initial_activities)"
proof -
  have h: "''Knitting Circle'' \<notin> fst ` set initial_activities"
    by (simp add: initial_activities_def)
  show ?thesis
    by (rule unknown_activity_not_found [OF h])
qed

subsection \<open>Signing up\<close>

text \<open>
  C1. Take a stored activity whose \<^verbatim>\<open>participants\<close> is a list and an email that is not
  in the list. The signup request returns
  \<^verbatim>\<open>{"message": "Signed up {email} for {activity_name}"}\<close>; afterwards the list is the
  old one with the email appended, so the email occurs in it exactly once, and every
  other activity of the store is as before.
\<close>

theorem signup_new_email:
  assumes "map_of data name = Some d" and "distinct (map fst d)"
    and "map_of d ''participants'' = Some (JList ps)"
    and "JStr email \<notin> set ps"
  shows "fst (signup_for_activity data name email)
           = Inr [(''message'', ''Signed up '' @ email @ '' for '' @ name)]
       \<and> participants_of (snd (signup_for_activity data name email)) name
           = Some (JList (ps @ [JStr email]))
       \<and> count_list (ps @ [JStr email]) (JStr email) = 1
       \<and> (\<forall>other. other \<noteq> name \<longrightarrow>
             map_of (snd (signup_for_activity data name email)) other = map_of data other)"
  using assms(4)
  by (simp add: signup_known [OF assms(1-3)] participants_of_update AList.update_conv')

theorem signup_new_email_witness:
  "fst (signup_for_activity initial_activities ''Chess Club'' ''new@mergington.edu'')
     = Inr [(''message'', ''Signed up new@mergington.edu for Chess Club'')]
   \<and> participants_of
        (snd (signup_for_activity initial_activities ''Chess Club'' ''new@mergington.edu''))
        ''Chess Club''
     = Some (JList [JStr ''michael@mergington.edu'', JStr ''daniel@mergington.edu'',
                    JStr ''new@mergington.edu''])"
proof -
  let ?d = "activity ''Learn strategies and compete in chess tournaments''
              ''Fridays, 3:30 PM - 5:00 PM'' 12
              [''michael@mergington.edu'', ''daniel@mergington.edu'']"
  let ?ps = "[JStr ''michael@mergington.edu'', JStr ''daniel@mergington.edu'']"
  have h1: "map_of initial_activities ''Chess Club'' = Some ?d"
    by (simp add: initial_activities_def)
  have h2: "distinct (map fst ?d)"
    by (simp add: activity_def)
  have h3: "map_of ?d ''participants'' = Some (JList ?ps)"
    by (simp add: activity_def)
  have h4: "JStr ''new@mergington.edu'' \<notin> set ?ps"
    by simp
  show ?thesis
    using signup_new_email [OF h1 h2 h3 h4] by simp
qed

text \<open>
  C3. Take a stored activity whose \<^verbatim>\<open>participants\<close> is a list and an email that is in
  the list. The signup request raises
  \<^verbatim>\<open>HTTPException(400, "Student is already signed up")\<close> and the whole store,
  this activity's list included, is what it was.
\<close>

theorem signup_duplicate_rejected:
  assumes "map_of data name = Some d" and "distinct (map fst d)"
    and "map_of d ''participants'' = Some (JList ps)"
    and "JStr email \<in> set ps"
  shows "signup_for_activity data name email
           = (Inl (HTTPException 400 ''Student is already signed up''), data)"
  using assms(4) by (simp add: signup_known [OF assms(1-3)])

theorem signup_duplicate_rejected_witness:
  "signup_for_activity initial_activities ''Chess Club'' ''daniel@mergington.edu''
     = (Inl (HTTPException 400 ''Student is already signed up''), initial_activities)"
proof -
  let ?d = "activity ''Learn strategies and compete in chess tournaments''
              ''Fridays, 3:30 PM - 5:00 PM'' 12
              [''michael@mergington.edu'', ''daniel@mergington.edu'']"
  let ?ps = "[JStr ''michael@mergington.edu'', JStr ''daniel@mergington.edu'']"
  have h1: "map_of initial_activities ''Chess Club'' = Some ?d"
    by (simp add: initial_activities_def)
  have h2: "distinct (map fst ?d)"
    by (simp add: activity_def)
  have h3: "map_of ?d ''participants'' = Some (JList ?ps)"
    by (simp add: activity_def)
  have h4: "JStr ''daniel@mergington.edu'' \<in> set ?ps"
    by simp
  show ?thesis
    by (rule signup_duplicate_rejected [OF h1 h2 h3 h4])
qed

text \<open>
  C6. Signup does not look at \<^verbatim>\<open>max_participants\<close>. Take a stored activity with
  \<^verbatim>\<open>max_participants\<close> the number \<open>m\<close> and a list of participants that already has
  \<open>m\<close> entries or more. Signing up an email that is not in the list succeeds and appends
  it, so that the list is longer than \<open>m\<close>.
\<close>

theorem signup_ignores_capacity:
  assumes "map_of data name = Some d" and "distinct (map fst d)"
    and "map_of d ''participants'' = Some (JList ps)"
    and "JStr email \<notin> set ps"
    and "map_of d ''max_participants'' = Some (JInt m)"
    and "m \<le> int (length ps)"
  shows "fst (signup_for_activity data name email)
           = Inr [(''message'', ''Signed up '' @ email @ '' for '' @ name)]
       \<and> participants_of (snd (signup_for_activity data name email)) name
           = Some (JList (ps @ [JStr email]))
       \<and> m < int (length (ps @ [JStr email]))"
  using assms(4,6)
  by (simp add: signup_known [OF assms(1-3)] participants_of_update)

theorem signup_ignores_capacity_witness:
  "fst (signup_for_activity
          [(''Chess Club'', activity ''Learn strategies'' ''Fridays'' 2
                              [''michael@mergington.edu'', ''daniel@mergington.edu''])]
          ''Chess Club'' ''new@mergington.edu'')
     = Inr [(''message'', ''Signed up new@mergington.edu for Chess Club'')]
   \<and> participants_of
        (snd (signup_for_activity
                [(''Chess Club'', activity ''Learn strategies'' ''Fridays'' 2
                                    [''michael@mergington.edu'', ''daniel@mergington.edu''])]
                ''Chess Club'' ''new@mergington.edu''))
        ''Chess Club''
     = Some (JList [JStr ''michael@mergington.edu'', JStr ''daniel@mergington.edu'',
                    JStr ''new@mergington.edu''])"
proof -
  let ?d = "activity ''Learn strategies'' ''Fridays'' 2
              [''michael@mergington.edu'', ''daniel@mergington.edu'']"
  let ?ps = "[JStr ''michael@mergington.edu'', JStr ''daniel@mergington.edu'']"
  have h1: "map_of [(''Chess Club'', ?d)] ''Chess Club'' = Some ?d"
    by simp
  have h2: "distinct (map fst ?d)"
    by (simp add: activity_def)
  have h3: "map_of ?d ''participants'' = Some (JList ?ps)"
    by (simp add: activity_def)
  have h4: "JStr ''new@mergington.edu'' \<notin> set ?ps"
    by simp
  have h5: "map_of ?d ''max_participants'' = Some (JInt 2)"
    by (simp add: activity_def)
  have h6: "(2::int) \<le> int (length ?ps)"
    by simp
  show ?thesis
    using signup_ignores_capacity [OF h1 h2 h3 h4 h5 h6] by simp
qed

subsection \<open>Unregistering\<close>

text \<open>
  C2. Take a stored activity whose \<^verbatim>\<open>participants\<close> is a list. If the email is in the
  list, the unregister request returns
  \<^verbatim>\<open>{"message": "Unregistered {email} from {activity_name}"}\<close> and the list loses the
  first occurrence of the email and nothing else: the email occurs once less, every other
  entry as often as before. If the email is not in the list, the request raises
  \<^verbatim>\<open>HTTPException(400, "Student is not signed up for this activity")\<close> and the store
  is what it was.
\<close>

theorem unregister_present_or_absent:
  assumes "map_of data name = Some d" and "distinct (map fst d)"
    and "map_of d ''participants'' = Some (JList ps)"
  shows "(JStr email \<in> set ps \<longrightarrow>
            fst (unregister_from_activity data name email)
              = Inr [(''message'', ''Unregistered '' @ email @ '' from '' @ name)]
          \<and> participants_of (snd (unregister_from_activity data name email)) name
              = Some (JList (remove1 (JStr email) ps))
          \<and> count_list (remove1 (JStr email) ps) (JStr email) + 1
              = count_list ps (JStr email)
          \<and> (\<forall>x. x \<noteq> JStr email \<longrightarrow>
                count_list (remove1 (JStr email) ps) x = count_list ps x)
          \<and> length (remove1 (JStr email) ps) + 1 = length ps)
       \<and> (JStr email \<notin> set ps \<longrightarrow>
            unregister_from_activity data name email
              = (Inl (HTTPException 400 ''Student is not signed up for this activity''),
                 data))"
proof (cases "JStr email \<in> set ps")
  case True
  then have "0 < count_list ps (JStr email)"
    by (rule count_list_present)
  moreover from True have "0 < length ps"
    by (cases ps) auto
  ultimately show ?thesis
    using True
    by (simp add: unregister_known [OF assms] participants_of_update count_list_remove1
        length_remove1)
next
  case False
  then show ?thesis
    by (simp add: unregister_known [OF assms])
qed

theorem unregister_present_or_absent_witness:
  "fst (unregister_from_activity initial_activities ''Chess Club'' ''michael@mergington.edu'')
     = Inr [(''message'', ''Unregistered michael@mergington.edu from Chess Club'')]
   \<and> participants_of
        (snd (unregister_from_activity initial_activities ''Chess Club''
                ''michael@mergington.edu''))
        ''Chess Club''
     = Some (JList [JStr ''daniel@mergington.edu''])
   \<and> unregister_from_activity initial_activities ''Chess Club'' ''new@mergington.edu''
     = (Inl (HTTPException 400 ''Student is not signed up for this activity''),
        initial_activities)"
proof -
  let ?d = "activity ''Learn strategies and compete in chess tournaments''
              ''Fridays, 3:30 PM - 5:00 PM'' 12
              [''michael@mergington.edu'', ''daniel@mergington.edu'']"
  let ?ps = "[JStr ''michael@mergington.edu'', JStr ''daniel@mergington.edu'']"
  have h1: "map_of initial_activities ''Chess Club'' = Some ?d"
    by (simp add: initial_activities_def)
  have h2: "distinct (map fst ?d)"
    by (simp add: activity_def)
  have h3: "map_of ?d ''participants'' = Some (JList ?ps)"
    by (simp add: activity_def)
  show ?thesis
    using unregister_present_or_absent [OF h1 h2 h3, of "''michael@mergington.edu''"]
      unregister_present_or_absent [OF h1 h2 h3, of "''new@mergington.edu''"]
    by simp
qed

subsection \<open>Counting\<close>

text \<open>
  C9. \<^verbatim>\<open>count_documents\<close> returns the number of entries of the store, whatever the
  filter: two filters, of any kind, give the same count.
\<close>

theorem count_documents_ignores_filter:
  "count_documents data q = length data \<and> count_documents data q = count_documents data q'"
  by (simp add: count_documents_def)

subsection \<open>The modified count of \<^verbatim>\<open>update_one\<close>\<close>

lemma py_append_not_list: "\<forall>xs. x \<noteq> JList xs \<Longrightarrow> py_append x e = Inl AttributeError"
  by (cases x) simp_all

lemma py_remove_not_list: "\<forall>xs. x \<noteq> JList xs \<Longrightarrow> py_remove x e = Inl AttributeError"
  by (cases x) simp_all

lemma update_one_push_not_list:
  "map_of data name = Some d \<Longrightarrow> map_of d field = Some x \<Longrightarrow> \<forall>xs. x \<noteq> JList xs \<Longrightarrow>
   update_one data [(''_id'', name)] [(''$push'', [(field, value)])] = (Inl AttributeError, data)"
  by (auto simp: update_one_def push_field_def py_append_not_list map_of_eq_None_iff [symmetric])

lemma update_one_pull_not_list:
  "map_of data name = Some d \<Longrightarrow> map_of d field = Some x \<Longrightarrow> \<forall>xs. x \<noteq> JList xs \<Longrightarrow>
   update_one data [(''_id'', name)] [(''$pull'', [(field, value)])] = (Inl AttributeError, data)"
  by (auto simp: update_one_def pull_field_def py_remove_not_list map_of_eq_None_iff [symmetric])

text \<open>
  C5, as amended. \<^verbatim>\<open>update_one\<close> returns \<^verbatim>\<open>modified_count\<close> 0, and leaves the store
  alone, when no record has the queried name. When the record exists, an update of one
  field returns \<^verbatim>\<open>modified_count\<close> 1 in these cases: \<^verbatim>\<open>$push\<close> on a field that is
  absent or holds a list; \<^verbatim>\<open>$pull\<close> on a field that is absent (nothing changes) or
  holds a list with the value in it. In the remaining cases it returns no result and
  writes nothing: \<^verbatim>\<open>$pull\<close> of a value that the list does not hold raises
  \<^verbatim>\<open>ValueError\<close>, and either update on a field that holds something other than a
  list raises \<^verbatim>\<open>AttributeError\<close>.
\<close>

theorem update_one_modified_count:
  "(map_of data name = None \<longrightarrow>
      update_one data [(''_id'', name)] upd = (Inr \<lparr>modified_count = 0\<rparr>, data))
   \<and> (map_of data name = Some d \<longrightarrow>
        (map_of d field = None \<longrightarrow>
           fst (update_one data [(''_id'', name)] [(''$push'', [(field, value)])])
             = Inr \<lparr>modified_count = 1\<rparr>
         \<and> update_one data [(''_id'', name)] [(''$pull'', [(field, value)])]
             = (Inr \<lparr>modified_count = 1\<rparr>, data))
      \<and> (\<forall>xs. map_of d field = Some (JList xs) \<longrightarrow>
           fst (update_one data [(''_id'', name)] [(''$push'', [(field, value)])])
             = Inr \<lparr>modified_count = 1\<rparr>
         \<and> (JStr value \<in> set xs \<longrightarrow>
              fst (update_one data [(''_id'', name)] [(''$pull'', [(field, value)])])
                = Inr \<lparr>modified_count = 1\<rparr>)
         \<and> (JStr value \<notin> set xs \<longrightarrow>
              update_one data [(''_id'', name)] [(''$pull'', [(field, value)])]
                = (Inl ValueError, data)))
      \<and> (\<forall>x. map_of d field = Some x \<and> (\<forall>xs. x \<noteq> JList xs) \<longrightarrow>
           update_one data [(''_id'', name)] [(''$push'', [(field, value)])]
             = (Inl AttributeError, data)
         \<and> update_one data [(''_id'', name)] [(''$pull'', [(field, value)])]
             = (Inl AttributeError, data)))"
proof (intro conjI impI allI)
  assume "map_of data name = None"
  then show "update_one data [(''_id'', name)] upd = (Inr \<lparr>modified_count = 0\<rparr>, data)"
    by (rule update_one_unknown)
next
  assume "map_of data name = Some d" and "map_of d field = None"
  then show "fst (update_one data [(''_id'', name)] [(''$push'', [(field, value)])])
             = Inr \<lparr>modified_count = 1\<rparr>"
    by (simp add: update_one_push_new)
next
  assume "map_of data name = Some d" and "map_of d field = None"
  then show "update_one data [(''_id'', name)] [(''$pull'', [(field, value)])]
             = (Inr \<lparr>modified_count = 1\<rparr>, data)"
    by (rule update_one_pull_absent)
next
  fix xs
  assume "map_of data name = Some d" and "map_of d field = Some (JList xs)"
  then show "fst (update_one data [(''_id'', name)] [(''$push'', [(field, value)])])
             = Inr \<lparr>modified_count = 1\<rparr>"
    by (simp add: update_one_push)
next
  fix xs
  assume "map_of data name = Some d" and "map_of d field = Some (JList xs)"
    and "JStr value \<in> set xs"
  then show "fst (update_one data [(''_id'', name)] [(''$pull'', [(field, value)])])
             = Inr \<lparr>modified_count = 1\<rparr>"
    by (simp add: update_one_pull)
next
  fix xs
  assume "map_of data name = Some d" and "map_of d field = Some (JList xs)"
    and "JStr value \<notin> set xs"
  then show "update_one data [(''_id'', name)] [(''$pull'', [(field, value)])]
             = (Inl ValueError, data)"
    by (simp add: update_one_pull)
next
  fix x
  assume "map_of data name = Some d" and "map_of d field = Some x \<and> (\<forall>xs. x \<noteq> JList xs)"
  then show "update_one data [(''_id'', name)] [(''$push'', [(field, value)])]
             = (Inl AttributeError, data)"
    by (simp add: update_one_push_not_list)
next
  fix x
  assume "map_of data name = Some d" and "map_of d field = Some x \<and> (\<forall>xs. x \<noteq> JList xs)"
  then show "update_one data [(''_id'', name)] [(''$pull'', [(field, value)])]
             = (Inl AttributeError, data)"
    by (simp add: update_one_pull_not_list)
qed

theorem update_one_modified_count_witness:
  "update_one initial_activities [(''_id'', ''Knitting Circle'')]
       [(''$push'', [(''participants'', ''emma@mergington.edu'')])]
     = (Inr \<lparr>modified_count = 0\<rparr>, initial_activities)
   \<and> fst (update_one initial_activities [(''_id'', ''Chess Club'')]
            [(''$push'', [(''participants'', ''emma@mergington.edu'')])])
     = Inr \<lparr>modified_count = 1\<rparr>
   \<and> fst (update_one initial_activities [(''_id'', ''Chess Club'')]
            [(''$pull'', [(''participants'', ''daniel@mergington.edu'')])])
     = Inr \<lparr>modified_count = 1\<rparr>
   \<and> fst (update_one initial_activities [(''_id'', ''Chess Club'')]
            [(''$push'', [(''waitlist'', ''emma@mergington.edu'')])])
     = Inr \<lparr>modified_count = 1\<rparr>
   \<and> update_one initial_activities [(''_id'', ''Chess Club'')]
       [(''$push'', [(''schedule'', ''emma@mergington.edu'')])]
     = (Inl AttributeError, initial_activities)"
proof -
  let ?d = "activity ''Learn strategies and compete in chess tournaments''
              ''Fridays, 3:30 PM - 5:00 PM'' 12
              [''michael@mergington.edu'', ''daniel@mergington.edu'']"
  let ?ps = "[JStr ''michael@mergington.edu'', JStr ''daniel@mergington.edu'']"
  have h0: "map_of initial_activities ''Knitting Circle'' = None"
    by (simp add: initial_activities_def)
  have h1: "map_of initial_activities ''Chess Club'' = Some ?d"
    by (simp add: initial_activities_def)
  have h2: "map_of ?d ''participants'' = Some (JList ?ps)"
    by (simp add: activity_def)
  have h3: "map_of ?d ''waitlist'' = None"
    by (simp add: activity_def)
  have h4: "map_of ?d ''schedule'' = Some (JStr ''Fridays, 3:30 PM - 5:00 PM'')"
    by (simp add: activity_def)
  show ?thesis
    using h0 h1 h2 h3 h4
      update_one_modified_count [of initial_activities "''Knitting Circle''"
        "[(''$push'', [(''participants'', ''emma@mergington.edu'')])]"]
      update_one_modified_count [of initial_activities "''Chess Club''" _ ?d
        "''participants''" "''emma@mergington.edu''"]
      update_one_modified_count [of initial_activities "''Chess Club''" _ ?d
        "''participants''" "''daniel@mergington.edu''"]
      update_one_modified_count [of initial_activities "''Chess Club''" _ ?d
        "''waitlist''" "''emma@mergington.edu''"]
      update_one_modified_count [of initial_activities "''Chess Club''" _ ?d
        "''schedule''" "''emma@mergington.edu''"]
    by simp
qed

text \<open>
  C5 as stated fails: the record exists, and removing an email that is not in its list
  gives \<^verbatim>\<open>ValueError\<close> instead of a result with \<^verbatim>\<open>modified_count\<close> 1.
\<close>

theorem update_one_pull_missing_counterexample:
  "map_of initial_activities ''Chess Club'' \<noteq> None
   \<and> update_one initial_activities [(''_id'', ''Chess Club'')]
       [(''$pull'', [(''participants'', ''new@mergington.edu'')])]
     = (Inl ValueError, initial_activities)"
proof -
  let ?d = "activity ''Learn strategies and compete in chess tournaments''
              ''Fridays, 3:30 PM - 5:00 PM'' 12
              [''michael@mergington.edu'', ''daniel@mergington.edu'']"
  let ?ps = "[JStr ''michael@mergington.edu'', JStr ''daniel@mergington.edu'']"
  have h1: "map_of initial_activities ''Chess Club'' = Some ?d"
    by (simp add: initial_activities_def)
  have h2: "map_of ?d ''participants'' = Some (JList ?ps)"
    by (simp add: activity_def)
  show ?thesis
    using h1 update_one_pull [OF h1 h2, of "''new@mergington.edu''"] by simp
qed

subsection \<open>Listing the activities\<close>

lemma py_setitem_values:
  "snd ` set (py_setitem acc k v) \<subseteq> insert v (snd ` set acc)"
proof (induction acc)
  case Nil
  then show ?case by simp
next
  case (Cons p acc)
  obtain k' v' where p: "p = (k', v')" by (cases p)
  show ?case
  proof (cases "py_key k' = py_key k")
    case True
    then show ?thesis using p by auto
  next
    case False
    then show ?thesis using p Cons.IH by auto
  qed
qed

lemma py_setitem_fresh:
  "py_key k \<notin> py_key ` fst ` set acc \<Longrightarrow> py_setitem acc k v = acc @ [(k, v)]"
  by (induction acc) auto

lemma collect_no_id:
  assumes "collect acc doc = Inr acc'"
    and "\<forall>v \<in> snd ` set acc. ''_id'' \<notin> fst ` set v"
  shows "\<forall>v \<in> snd ` set acc'. ''_id'' \<notin> fst ` set v"
proof -
  from assms(1) obtain k where acc':
    "acc' = py_setitem acc k (AList.delete ''_id'' doc)"
    by (auto simp: collect_def split: option.splits if_splits)
  have fresh: "''_id'' \<notin> fst ` set (AList.delete ''_id'' doc)"
    by (rule AList.delete_notin_dom)
  show ?thesis
  proof
    fix v
    assume "v \<in> snd ` set acc'"
    then have "v = AList.delete ''_id'' doc \<or> v \<in> snd ` set acc"
      unfolding acc' using py_setitem_values [of acc k "AList.delete ''_id'' doc"] by blast
    then show "''_id'' \<notin> fst ` set v"
      using fresh assms(2) by blast
  qed
qed

lemma for_each_collect_no_id:
  "for_each collect docs acc = Inr activities \<Longrightarrow>
   \<forall>v \<in> snd ` set acc. ''_id'' \<notin> fst ` set v \<Longrightarrow>
   \<forall>v \<in> snd ` set activities. ''_id'' \<notin> fst ` set v"
proof (induction docs arbitrary: acc)
  case Nil
  then show ?case by simp
next
  case (Cons doc docs)
  from Cons.prems(1) obtain acc' where step: "collect acc doc = Inr acc'"
    and rest: "for_each collect docs acc' = Inr activities"
    by (auto split: sum.splits)
  from collect_no_id [OF step Cons.prems(2)] Cons.IH [OF rest]
  show ?case by blast
qed

lemma py_merge_onto:
  assumes "distinct (map fst d)" and "fst ` set acc \<inter> fst ` set d = {}"
    and "i \<notin> fst ` set acc"
  shows "py_merge ((i, x) # acc) d
         = (i, case map_of d i of None \<Rightarrow> x | Some y \<Rightarrow> y) # acc @ AList.delete i d"
  using assms
proof (induction d arbitrary: x acc)
  case Nil
  then show ?case by (simp add: py_merge_def)
next
  case (Cons p d)
  obtain k v where p: "p = (k, v)" by (cases p)
  from Cons.prems(1) p have kd: "k \<notin> fst ` set d" and dd: "distinct (map fst d)"
    by auto
  from Cons.prems(2) p have ka: "k \<notin> fst ` set acc"
    and disj: "fst ` set acc \<inter> fst ` set d = {}"
    by auto
  show ?case
  proof (cases "k = i")
    case True
    have "py_merge ((i, x) # acc) (p # d) = py_merge ((i, v) # acc) d"
      using p True by (simp add: py_merge_def)
    also have "\<dots> = (i, case map_of d i of None \<Rightarrow> v | Some y \<Rightarrow> y)
                        # acc @ AList.delete i d"
      using dd disj Cons.prems(3) by (rule Cons.IH)
    also have "map_of d i = None"
      using kd True by (simp add: map_of_eq_None_iff)
    finally show ?thesis
      using p True by simp
  next
    case False
    have disj': "fst ` set (acc @ [(k, v)]) \<inter> fst ` set d = {}"
      using disj kd by auto
    have fresh': "i \<notin> fst ` set (acc @ [(k, v)])"
      using Cons.prems(3) False by auto
    have "py_merge ((i, x) # acc) (p # d) = py_merge ((i, x) # acc @ [(k, v)]) d"
      using p False by (simp add: py_merge_def update_fresh [OF ka])
    also have "\<dots> = (i, case map_of d i of None \<Rightarrow> x | Some y \<Rightarrow> y)
                        # (acc @ [(k, v)]) @ AList.delete i d"
      using dd disj' fresh' by (rule Cons.IH)
    finally show ?thesis
      using p False by simp
  qed
qed

lemma collect_named:
  assumes "distinct (map fst d)"
    and "map_of d ''_id'' = None \<or> map_of d ''_id'' = Some (JStr k)"
  shows "collect acc (py_merge [(''_id'', JStr k)] d)
         = Inr (py_setitem acc (JStr k) (AList.delete ''_id'' d))"
proof -
  have "py_merge [(''_id'', JStr k)] d
        = (''_id'', case map_of d ''_id'' of None \<Rightarrow> JStr k | Some y \<Rightarrow> y)
          # [] @ AList.delete ''_id'' d"
    using assms(1) by (intro py_merge_onto) simp_all
  also have "(case map_of d ''_id'' of None \<Rightarrow> JStr k | Some y \<Rightarrow> y) = JStr k"
    using assms(2) by auto
  finally have "py_merge [(''_id'', JStr k)] d = (''_id'', JStr k) # AList.delete ''_id'' d"
    by simp
  then show ?thesis
    by (simp add: collect_def AList.delete_idem)
qed

lemma for_each_collect_names:
  assumes "distinct (map fst (seen @ rest))"
    and "\<forall>(k, d) \<in> set rest. distinct (map fst d)
           \<and> (map_of d ''_id'' = None \<or> map_of d ''_id'' = Some (JStr k))"
  shows "for_each collect (find_all rest)
           (map (\<lambda>(k, d). (JStr k, AList.delete ''_id'' d)) seen)
         = Inr (map (\<lambda>(k, d). (JStr k, AList.delete ''_id'' d)) (seen @ rest))"
  using assms
proof (induction rest arbitrary: seen)
  case Nil
  then show ?case by (simp add: find_all_def)
next
  case (Cons p rest)
  let ?out = "\<lambda>(k, d). (JStr k, AList.delete ''_id'' d)"
  obtain k d where p: "p = (k, d)" by (cases p)
  from Cons.prems(2) p have d: "distinct (map fst d)"
    "map_of d ''_id'' = None \<or> map_of d ''_id'' = Some (JStr k)"
    by auto
  from Cons.prems(1) p have "k \<notin> fst ` set seen"
    by auto
  then have "py_key (JStr k) \<notin> py_key ` fst ` set (map ?out seen)"
    by (auto simp: image_iff)
  then have put: "py_setitem (map ?out seen) (JStr k) (AList.delete ''_id'' d)
                  = map ?out (seen @ [(k, d)])"
    by (simp add: py_setitem_fresh)
  have "for_each collect (find_all (p # rest)) (map ?out seen)
        = for_each collect (find_all rest) (map ?out (seen @ [(k, d)]))"
    using p by (simp add: find_all_def collect_named [OF d] put)
  also have "\<dots> = Inr (map ?out ((seen @ [(k, d)]) @ rest))"
    using Cons.prems p by (intro Cons.IH) auto
  finally show ?case
    using p by simp
qed

lemma get_activities_named:
  assumes "distinct (map fst data)"
    and "\<forall>(k, d) \<in> set data. distinct (map fst d)
           \<and> (map_of d ''_id'' = None \<or> map_of d ''_id'' = Some (JStr k))"
  shows "get_activities data
         = Inr (map (\<lambda>(k, d). (JStr k, AList.delete ''_id'' d)) data)"
  unfolding get_activities_def using for_each_collect_names [of "[]" data] assms by simp

subsection \<open>Seeding\<close>

lemma seeded: "init_db [] = (Inr (), initial_activities)"
  by (simp add: init_db_def count_documents_def initial_activities_def insert_one_def
      py_merge_def activity_def)

text \<open>
  C7. On the empty store \<^verbatim>\<open>init_db\<close> inserts the nine initial activities without an
  error and leaves the store equal to \<^verbatim>\<open>initial_activities\<close>; \<^verbatim>\<open>GET /activities\<close> on
  that store returns every initial activity under its name, with the description,
  schedule, \<^verbatim>\<open>max_participants\<close> and participants of the seed.
\<close>

theorem seed_round_trip:
  "init_db [] = (Inr (), initial_activities)
   \<and> length initial_activities = 9
   \<and> get_activities (snd (init_db []))
       = Inr (map (\<lambda>(name, details). (JStr name, details)) initial_activities)"
proof -
  have nine: "length initial_activities = 9"
    by (simp add: initial_activities_def)
  have "get_activities initial_activities
        = Inr (map (\<lambda>(name, details). (JStr name, details)) initial_activities)"
    by (simp add: get_activities_def find_all_def py_merge_def collect_def
        initial_activities_def activity_def)
  with nine show ?thesis
    by (simp add: seeded)
qed

subsection \<open>What start-up and the handlers keep up in the store\<close>

lemma activity_okD:
  assumes "activity_ok d"
  obtains ps where "distinct (map fst d)" and "''_id'' \<notin> fst ` set d"
    and "map_of d ''participants'' = Some (JList ps)" and "distinct ps"
  using assms by (auto simp: activity_ok_def split: option.splits json.splits)

lemma activity_ok_replace:
  assumes "activity_ok d" and "distinct ps"
  shows "activity_ok (AList.update ''participants'' (JList ps) d)"
  using assms
  by (simp add: activity_ok_def AList.distinct_update AList.update_conv' AList.dom_update)

lemma store_ok_update:
  assumes "store_ok data" and "activity_ok d'"
  shows "store_ok (AList.update name d' data)"
  unfolding store_ok_def
proof (intro conjI ballI)
  from assms(1) show "distinct (map fst (AList.update name d' data))"
    by (simp add: store_ok_def AList.distinct_update)
next
  fix p
  assume "p \<in> set (AList.update name d' data)"
  then have "p = (name, d') \<or> p \<in> set data"
    by (rule set_update_cases)
  with assms show "case p of (n, d) \<Rightarrow> activity_ok d"
    by (auto simp: store_ok_def)
qed

lemma store_ok_lookup:
  assumes "store_ok data" and "map_of data name = Some d"
  shows "activity_ok d"
proof -
  from assms(2) have "(name, d) \<in> set data"
    by (rule map_of_SomeD)
  with assms(1) show ?thesis
    by (auto simp: store_ok_def)
qed

lemma store_ok_signup:
  assumes inv: "store_ok data"
  shows "store_ok (snd (signup_for_activity data name email))"
proof (cases "map_of data name")
  case None
  then show ?thesis
    using inv by (simp add: signup_unknown)
next
  case (Some d)
  with inv have ok: "activity_ok d"
    by (rule store_ok_lookup)
  then obtain ps where d: "distinct (map fst d)"
    and ps: "map_of d ''participants'' = Some (JList ps)" and dps: "distinct ps"
    by (rule activity_okD)
  show ?thesis
  proof (cases "JStr email \<in> set ps")
    case True
    then show ?thesis
      using inv by (simp add: signup_known [OF Some d ps])
  next
    case False
    with dps have "distinct (ps @ [JStr email])"
      by simp
    with ok have "activity_ok (AList.update ''participants'' (JList (ps @ [JStr email])) d)"
      by (rule activity_ok_replace)
    from store_ok_update [OF inv this] False show ?thesis
      by (simp add: signup_known [OF Some d ps])
  qed
qed

lemma store_ok_unregister:
  assumes inv: "store_ok data"
  shows "store_ok (snd (unregister_from_activity data name email))"
proof (cases "map_of data name")
  case None
  then show ?thesis
    using inv by (simp add: unregister_unknown)
next
  case (Some d)
  with inv have ok: "activity_ok d"
    by (rule store_ok_lookup)
  then obtain ps where d: "distinct (map fst d)"
    and ps: "map_of d ''participants'' = Some (JList ps)" and dps: "distinct ps"
    by (rule activity_okD)
  show ?thesis
  proof (cases "JStr email \<in> set ps")
    case True
    from dps have "distinct (remove1 (JStr email) ps)"
      by simp
    with ok have
      "activity_ok (AList.update ''participants'' (JList (remove1 (JStr email) ps)) d)"
      by (rule activity_ok_replace)
    from store_ok_update [OF inv this] True show ?thesis
      by (simp add: unregister_known [OF Some d ps])
  next
    case False
    then show ?thesis
      using inv by (simp add: unregister_known [OF Some d ps])
  qed
qed

lemma store_ok_api_call: "store_ok data \<Longrightarrow> store_ok (api_call data c)"
  by (cases c) (simp_all add: store_ok_signup store_ok_unregister)

lemma store_ok_api_calls: "store_ok data \<Longrightarrow> store_ok (api_calls data calls)"
  unfolding api_calls_def
proof (induction calls arbitrary: data)
  case Nil
  then show ?case by simp
next
  case (Cons c calls)
  from Cons.prems have "store_ok (api_call data c)"
    by (rule store_ok_api_call)
  then have "store_ok (foldl api_call (api_call data c) calls)"
    by (rule Cons.IH)
  then show ?case by simp
qed

lemma store_ok_seed: "store_ok initial_activities"
  by (simp add: store_ok_def initial_activities_def activity_def activity_ok_def)

lemma store_ok_running: "store_ok (api_calls (snd (init_db [])) calls)"
  using store_ok_seed by (simp add: seeded store_ok_api_calls)

text \<open>
  The stores the program itself produces have no record with an \<^verbatim>\<open>_id\<close> field, so on
  them \<^verbatim>\<open>GET /activities\<close> returns every record under its name.
\<close>

lemma get_activities_running:
  "get_activities (api_calls (snd (init_db [])) calls)
   = Inr (map (\<lambda>(k, d). (JStr k, d)) (api_calls (snd (init_db [])) calls))"
proof -
  let ?data = "api_calls (snd (init_db [])) calls"
  have ok: "store_ok ?data"
    by (rule store_ok_running)
  have no_id: "\<forall>(k, d) \<in> set ?data. ''_id'' \<notin> fst ` set d"
    using ok by (auto simp: store_ok_def activity_ok_def)
  have "get_activities ?data = Inr (map (\<lambda>(k, d). (JStr k, AList.delete ''_id'' d)) ?data)"
  proof (rule get_activities_named)
    show "distinct (map fst ?data)"
      using ok by (simp add: store_ok_def)
  next
    show "\<forall>(k, d) \<in> set ?data. distinct (map fst d)
            \<and> (map_of d ''_id'' = None \<or> map_of d ''_id'' = Some (JStr k))"
      using ok by (auto simp: store_ok_def activity_ok_def map_of_eq_None_iff)
  qed
  also have "map (\<lambda>(k, d). (JStr k, AList.delete ''_id'' d)) ?data
             = map (\<lambda>(k, d). (JStr k, d)) ?data"
    using no_id by (intro map_cong) auto
  finally show ?thesis .
qed

subsection \<open>The keys and values of the listing\<close>

text \<open>
  C8. A store state holds the records of the data model (description, schedule,
  \<^verbatim>\<open>max_participants\<close>, participants) under the activity names: the identifier is
  attached by \<^verbatim>\<open>find\<close> and is no field of a stored record. On every such store, and
  also when a record carries an \<^verbatim>\<open>_id\<close> that repeats its name,
  \<^verbatim>\<open>GET /activities\<close> returns one entry for every stored activity, in the order of the
  store, whose key is the activity's name and whose value is the record without
  \<^verbatim>\<open>_id\<close>. Whenever the handler returns at all, no value of the mapping has an
  \<^verbatim>\<open>_id\<close> field. Every store the program reaches, from start-up on the empty store
  through any sequence of signup and unregister requests, is of that kind: there the
  handler returns every stored record, unchanged, under its name.
\<close>

theorem get_activities_keys_and_ids:
  "(get_activities data = Inr activities \<longrightarrow>
      (\<forall>v \<in> snd ` set activities. ''_id'' \<notin> fst ` set v))
   \<and> (distinct (map fst data)
        \<and> (\<forall>(k, d) \<in> set data. distinct (map fst d)
              \<and> (map_of d ''_id'' = None \<or> map_of d ''_id'' = Some (JStr k))) \<longrightarrow>
      get_activities data
        = Inr (map (\<lambda>(k, d). (JStr k, AList.delete ''_id'' d)) data)
      \<and> (\<forall>v \<in> snd ` set (map (\<lambda>(k, d). (JStr k, AList.delete ''_id'' d)) data).
            ''_id'' \<notin> fst ` set v))
   \<and> get_activities (api_calls (snd (init_db [])) calls)
       = Inr (map (\<lambda>(k, d). (JStr k, d)) (api_calls (snd (init_db [])) calls))"
proof (intro conjI impI)
  assume "get_activities data = Inr activities"
  then show "\<forall>v \<in> snd ` set activities. ''_id'' \<notin> fst ` set v"
    unfolding get_activities_def by (rule for_each_collect_no_id) simp
next
  assume "distinct (map fst data)
    \<and> (\<forall>(k, d) \<in> set data. distinct (map fst d)
          \<and> (map_of d ''_id'' = None \<or> map_of d ''_id'' = Some (JStr k)))"
  then show "get_activities data
        = Inr (map (\<lambda>(k, d). (JStr k, AList.delete ''_id'' d)) data)"
    by (simp add: get_activities_named)
next
  show "\<forall>v \<in> snd ` set (map (\<lambda>(k, d). (JStr k, AList.delete ''_id'' d)) data).
          ''_id'' \<notin> fst ` set v"
  proof
    fix v
    assume "v \<in> snd ` set (map (\<lambda>(k, d). (JStr k, AList.delete ''_id'' d)) data)"
    then obtain d where "v = AList.delete ''_id'' d"
      by auto
    then show "''_id'' \<notin> fst ` set v"
      by (simp add: AList.delete_notin_dom)
  qed
next
  show "get_activities (api_calls (snd (init_db [])) calls)
       = Inr (map (\<lambda>(k, d). (JStr k, d)) (api_calls (snd (init_db [])) calls))"
    by (rule get_activities_running)
qed

theorem get_activities_keys_and_ids_witness:
  "get_activities
     [(''Chess Club'', activity ''Learn strategies'' ''Fridays'' 12 [''michael@mergington.edu'']),
      (''Math Club'', [(''_id'', JStr ''Math Club''), (''participants'', JList [])])]
   = Inr [(JStr ''Chess Club'',
           activity ''Learn strategies'' ''Fridays'' 12 [''michael@mergington.edu'']),
          (JStr ''Math Club'', [(''participants'', JList [])])]
   \<and> map_of (activity ''Learn strategies'' ''Fridays'' 12 [''michael@mergington.edu''])
        ''_id'' = None
   \<and> map_of [(''participants'', JList [])] ''_id'' = None"
proof -
  let ?chess = "activity ''Learn strategies'' ''Fridays'' 12 [''michael@mergington.edu'']"
  let ?data = "[(''Chess Club'', ?chess),
                (''Math Club'', [(''_id'', JStr ''Math Club''), (''participants'', JList [])])]"
  let ?out = "[(JStr ''Chess Club'', ?chess),
               (JStr ''Math Club'', [(''participants'', JList [])])]"
  have h: "distinct (map fst ?data)
    \<and> (\<forall>(k, d) \<in> set ?data. distinct (map fst d)
          \<and> (map_of d ''_id'' = None \<or> map_of d ''_id'' = Some (JStr k)))"
    by (simp add: activity_def)
  have "get_activities ?data
          = Inr (map (\<lambda>(k, d). (JStr k, AList.delete ''_id'' d)) ?data)
        \<and> (\<forall>v \<in> snd ` set (map (\<lambda>(k, d). (JStr k, AList.delete ''_id'' d)) ?data).
              ''_id'' \<notin> fst ` set v)"
    by (rule mp [OF conjunct1 [OF conjunct2 [OF get_activities_keys_and_ids]] h])
  moreover have "map (\<lambda>(k, d). (JStr k, AList.delete ''_id'' d)) ?data = ?out"
    by (simp add: activity_def)
  ultimately have r: "get_activities ?data = Inr ?out"
    and "\<forall>v \<in> snd ` set ?out. ''_id'' \<notin> fst ` set v"
    by simp_all
  then have "map_of ?chess ''_id'' = None"
    and "map_of [(''participants'', JList [])] ''_id'' = None"
    by (simp_all add: map_of_eq_None_iff)
  with r show ?thesis
    by simp
qed

subsection \<open>No email twice in a list of participants\<close>

text \<open>
  C10. After start-up on an empty store, and then after any sequence of signup and
  unregister requests, every stored activity has a list of participants in which no
  value occurs twice. The storage layer does not see to that: \<^verbatim>\<open>update_one\<close> with
  \<^verbatim>\<open>$push\<close> appends the email to the list whether or not the list already holds it,
  so it is the membership check of the signup handler that keeps the lists free of
  duplicates.
\<close>

theorem participants_stay_unique:
  "(\<forall>(n, d) \<in> set (api_calls (snd (init_db [])) calls).
      \<exists>ps. map_of d ''participants'' = Some (JList ps) \<and> distinct ps)
   \<and> (map_of data name = Some d \<and> map_of d ''participants'' = Some (JList ps) \<longrightarrow>
        update_one data [(''_id'', name)] [(''$push'', [(''participants'', email)])]
          = (Inr \<lparr>modified_count = 1\<rparr>,
             AList.update name
               (AList.update ''participants'' (JList (ps @ [JStr email])) d) data))"
proof (intro conjI impI)
  show "\<forall>(n, d) \<in> set (api_calls (snd (init_db [])) calls).
      \<exists>ps. map_of d ''participants'' = Some (JList ps) \<and> distinct ps"
  proof (clarify)
    fix n d
    assume "(n, d) \<in> set (api_calls (snd (init_db [])) calls)"
    with store_ok_running [of calls] have "activity_ok d"
      by (auto simp: store_ok_def)
    then obtain ps where "map_of d ''participants'' = Some (JList ps)" and "distinct ps"
      by (rule activity_okD)
    then show "\<exists>ps. map_of d ''participants'' = Some (JList ps) \<and> distinct ps"
      by blast
  qed
next
  assume "map_of data name = Some d \<and> map_of d ''participants'' = Some (JList ps)"
  then show "update_one data [(''_id'', name)] [(''$push'', [(''participants'', email)])]
          = (Inr \<lparr>modified_count = 1\<rparr>,
             AList.update name
               (AList.update ''participants'' (JList (ps @ [JStr email])) d) data)"
    by (simp add: update_one_push)
qed

theorem participants_stay_unique_witness:
  "(''Chess Club'',
    activity ''Learn strategies and compete in chess tournaments''
      ''Fridays, 3:30 PM - 5:00 PM'' 12
      [''daniel@mergington.edu'', ''new@mergington.edu''])
     \<in> set (api_calls (snd (init_db []))
              [Signup ''Chess Club'' ''new@mergington.edu'',
               Signup ''Chess Club'' ''new@mergington.edu'',
               Unregister ''Chess Club'' ''michael@mergington.edu''])
   \<and> (\<exists>ps. map_of (activity ''Learn strategies and compete in chess tournaments''
                      ''Fridays, 3:30 PM - 5:00 PM'' 12
                      [''daniel@mergington.edu'', ''new@mergington.edu''])
               ''participants'' = Some (JList ps)
           \<and> distinct ps)
   \<and> participants_of
        (snd (update_one initial_activities [(''_id'', ''Chess Club'')]
                [(''$push'', [(''participants'', ''michael@mergington.edu'')])]))
        ''Chess Club''
     = Some (JList [JStr ''michael@mergington.edu'', JStr ''daniel@mergington.edu'',
                    JStr ''michael@mergington.edu''])"
proof -
  let ?calls = "[Signup ''Chess Club'' ''new@mergington.edu'',
                 Signup ''Chess Club'' ''new@mergington.edu'',
                 Unregister ''Chess Club'' ''michael@mergington.edu'']"
  let ?d = "activity ''Learn strategies and compete in chess tournaments''
              ''Fridays, 3:30 PM - 5:00 PM'' 12
              [''michael@mergington.edu'', ''daniel@mergington.edu'']"
  let ?d' = "activity ''Learn strategies and compete in chess tournaments''
               ''Fridays, 3:30 PM - 5:00 PM'' 12
               [''daniel@mergington.edu'', ''new@mergington.edu'']"
  let ?ps = "[JStr ''michael@mergington.edu'', JStr ''daniel@mergington.edu'']"
  have mem: "(''Chess Club'', ?d') \<in> set (api_calls (snd (init_db [])) ?calls)"
    by (simp add: seeded api_calls_def signup_for_activity_def unregister_from_activity_def
        find_one_def update_one_def push_field_def pull_field_def py_merge_def
        initial_activities_def activity_def)
  have "\<forall>(n, d) \<in> set (api_calls (snd (init_db [])) ?calls).
          \<exists>ps. map_of d ''participants'' = Some (JList ps) \<and> distinct ps"
    by (rule conjunct1 [OF participants_stay_unique])
  with mem have unique: "\<exists>ps. map_of ?d' ''participants'' = Some (JList ps) \<and> distinct ps"
    by blast
  have h: "map_of initial_activities ''Chess Club'' = Some ?d
           \<and> map_of ?d ''participants'' = Some (JList ?ps)"
    by (simp add: initial_activities_def activity_def)
  have "update_one initial_activities [(''_id'', ''Chess Club'')]
          [(''$push'', [(''participants'', ''michael@mergington.edu'')])]
        = (Inr \<lparr>modified_count = 1\<rparr>,
           AList.update ''Chess Club''
             (AList.update ''participants''
                (JList (?ps @ [JStr ''michael@mergington.edu''])) ?d) initial_activities)"
    by (rule mp [OF conjunct2 [OF participants_stay_unique] h])
  then have "participants_of
        (snd (update_one initial_activities [(''_id'', ''Chess Club'')]
                [(''$push'', [(''participants'', ''michael@mergington.edu'')])]))
        ''Chess Club''
     = Some (JList (?ps @ [JStr ''michael@mergington.edu'']))"
    by (simp only: snd_conv participants_of_update)
  with mem unique show ?thesis
    by simp
qed

end
